theory Spec2Isabelle
  imports Main "HOL-Library.AList"
begin

section \<open>Operations and network-status actions\<close>

text \<open>
  The development follows the module \<^verbatim>\<open>useApolloNetworkStatus\<close> (the second part of
  \<^verbatim>\<open>src/index.ts\<close>): the three families of sub-reducers, the top-level \<^verbatim>\<open>reducer\<close>,
  \<^verbatim>\<open>initialState\<close> and the reducer configured with \<^verbatim>\<open>shouldHandleOperation\<close>.

  An Apollo \<^verbatim>\<open>Operation\<close> is kept as far as the reducers read it: the definitions of
  its document (\<^verbatim>\<open>operation.query.definitions\<close>), its \<^verbatim>\<open>operationName\<close>, and the
  entry \<^verbatim>\<open>useApolloNetworkStatus\<close> of the object returned by \<^verbatim>\<open>getContext()\<close>.
\<close>

datatype OperationTypeNode = Query | Mutation | Subscription

text \<open>
  A definition of a document is an operation definition, which carries its operation
  type, or a definition of another kind (a fragment, a type-system definition).
\<close>

datatype DefinitionNode =
    OperationDefinition OperationTypeNode
  | FragmentDefinition
  | TypeSystemDefinition

text \<open>
  The value stored under \<^verbatim>\<open>useApolloNetworkStatus\<close> in the context of an operation:
  nothing, a boolean, or any other value.
\<close>

datatype ContextValue = CtxUndefined | CtxBoolean bool | CtxOther

record Operation =
  definitions :: "DefinitionNode list"
  operationName :: string
  useApolloNetworkStatus :: ContextValue

text \<open>
  Errors are opaque to the reducers, which only store them; they are represented by
  their message.
\<close>

type_synonym GraphQLError = string
type_synonym NetworkError = string

record ExecutionResult =
  data :: "string option"
  errors :: "GraphQLError list option"

record OperationError =
  networkError :: "NetworkError option"
  operation :: Operation
  response :: "ExecutionResult option"
  graphQLErrors :: "GraphQLError list option"

text \<open>
  Modelled from the spec: the enumeration \<^verbatim>\<open>ActionTypes\<close> is imported from
  \<^verbatim>\<open>./ActionTypes\<close>; it has the four lifecycle events REQUEST, SUCCESS, ERROR and
  CANCEL. With these four members the statement after each \<^verbatim>\<open>switch\<close> of the
  sub-reducers (\<^verbatim>\<open>return state\<close>) is reached only by CANCEL in
  \<^verbatim>\<open>latestOperationErrorByType\<close>.
\<close>

datatype ActionTypes = REQUEST | SUCCESS | ERROR | CANCEL

text \<open>
  Modelled from the spec: \<^verbatim>\<open>NetworkStatusAction\<close> is imported from
  \<^verbatim>\<open>./NetworkStatusAction\<close>. The reducers read \<^verbatim>\<open>action.type\<close>,
  \<^verbatim>\<open>action.payload.operation\<close>, \<^verbatim>\<open>action.payload.networkError\<close> and
  \<^verbatim>\<open>action.payload.result\<close>; the last two may be missing.
\<close>

record Payload =
  operation :: Operation
  networkError :: "NetworkError option"
  result :: "ExecutionResult option"

record NetworkStatusAction =
  type :: ActionTypes
  payload :: Payload


section \<open>Objects and their identity\<close>

text \<open>
  The reducer compares objects with \<^verbatim>\<open>!==\<close>, that is by identity. No object is
  changed once another function can see it, so an object is modelled by its address
  together with its contents, and the allocation of a new object takes the next unused
  address from a counter that is threaded through the functions that allocate.
\<close>

type_synonym address = nat

datatype 'a object = Object (address: address) (contents: 'a)

type_synonym heap = address

definition alloc :: "heap \<Rightarrow> 'a \<Rightarrow> 'a object \<times> heap" where
  "alloc h v = (Object h v, Suc h)"

text \<open>\<^verbatim>\<open>a !== b\<close> for two objects, and for two values that are an object or undefined.\<close>

definition notSame :: "'a object \<Rightarrow> 'a object \<Rightarrow> bool" where
  "notSame a b \<longleftrightarrow> address a \<noteq> address b"

fun notSameOpt :: "'a object option \<Rightarrow> 'a object option \<Rightarrow> bool" where
  "notSameOpt None None = False"
| "notSameOpt (Some a) (Some b) = notSame a b"
| "notSameOpt (Some a) None = True"
| "notSameOpt None (Some b) = True"


section \<open>The values of a record\<close>

text \<open>
  The records of pending operations have the type \<^verbatim>\<open>Record<string, number>\<close>, and
  their objects are created by object literals, so that their prototype is
  \<^verbatim>\<open>Object.prototype\<close>. A read \<^verbatim>\<open>state[operationName]\<close> finds an own property, or else
  the property that \<^verbatim>\<open>Object.prototype\<close> has under that name, or else nothing.
  \<open>PrototypeProperty\<close> lists the properties of \<^verbatim>\<open>Object.prototype\<close>, \<open>propertyName\<close>
  gives their names and \<open>propertyText\<close> the string that the conversion of their value to
  a string gives: all are built-in functions, but for \<^verbatim>\<open>__proto__\<close>, which reads as
  \<^verbatim>\<open>Object.prototype\<close> itself.
\<close>

datatype PrototypeProperty =
    Constructor | DefineGetter | DefineSetter | HasOwnProperty | LookupGetter | LookupSetter
  | IsPrototypeOf | PropertyIsEnumerable | ToString | ValueOf | Proto | ToLocaleString

fun propertyName :: "PrototypeProperty \<Rightarrow> string" where
  "propertyName Constructor = ''constructor''"
| "propertyName DefineGetter = ''__defineGetter__''"
| "propertyName DefineSetter = ''__defineSetter__''"
| "propertyName HasOwnProperty = ''hasOwnProperty''"
| "propertyName LookupGetter = ''__lookupGetter__''"
| "propertyName LookupSetter = ''__lookupSetter__''"
| "propertyName IsPrototypeOf = ''isPrototypeOf''"
| "propertyName PropertyIsEnumerable = ''propertyIsEnumerable''"
| "propertyName ToString = ''toString''"
| "propertyName ValueOf = ''valueOf''"
| "propertyName Proto = ''__proto__''"
| "propertyName ToLocaleString = ''toLocaleString''"

fun propertyText :: "PrototypeProperty \<Rightarrow> string" where
  "propertyText Constructor = ''function Object() { [native code] }''"
| "propertyText Proto = ''[object Object]''"
| "propertyText p = ''function '' @ propertyName p @ ''() { [native code] }''"

definition prototypeProperties :: "PrototypeProperty list" where
  "prototypeProperties =
     [Constructor, DefineGetter, DefineSetter, HasOwnProperty, LookupGetter, LookupSetter,
      IsPrototypeOf, PropertyIsEnumerable, ToString, ValueOf, Proto, ToLocaleString]"

definition inherited :: "string \<Rightarrow> PrototypeProperty option" where
  "inherited name = map_of (map (\<lambda>p. (propertyName p, p)) prototypeProperties) name"

text \<open>
  The values that a record can hold, and that a read of a record can give: a number
  (counts are integers; the floating-point range of a JavaScript number is not
  modelled), \<^verbatim>\<open>NaN\<close>, the value \<open>Inherited p\<close> of a property of \<^verbatim>\<open>Object.prototype\<close>, or
  the string \<open>Text p k\<close> made of the text of such a value and \<open>k\<close> characters
  \<^verbatim>\<open>1\<close>. No other string comes up: the reducers store the results of \<^verbatim>\<open>value + 1\<close>
  and of \<^verbatim>\<open>Math.max(value - 1, 0)\<close> only.
\<close>

datatype JSValue = Number int | NaN | Inherited PrototypeProperty | Text PrototypeProperty nat

definition render :: "PrototypeProperty \<Rightarrow> nat \<Rightarrow> string" where
  "render p k = propertyText p @ replicate k (CHR ''1'')"

text \<open>
  \<^verbatim>\<open>value + 1\<close>: the addition of numbers; on a function, an object or a string it is
  the concatenation of its text with \<^verbatim>\<open>1\<close>.
\<close>

fun plus1 :: "JSValue \<Rightarrow> JSValue" where
  "plus1 (Number n) = Number (n + 1)"
| "plus1 NaN = NaN"
| "plus1 (Inherited p) = Text p 1"
| "plus1 (Text p k) = Text p (Suc k)"

text \<open>
  \<^verbatim>\<open>Math.max(value - 1, 0)\<close>: none of the texts is the text of a number, so the
  subtraction gives \<^verbatim>\<open>NaN\<close> on everything but a number, and so does \<^verbatim>\<open>Math.max\<close>.
\<close>

fun maxMinus1 :: "JSValue \<Rightarrow> JSValue" where
  "maxMinus1 (Number n) = Number (max (n - 1) 0)"
| "maxMinus1 NaN = NaN"
| "maxMinus1 (Inherited p) = NaN"
| "maxMinus1 (Text p k) = NaN"


section \<open>The network status\<close>

text \<open>
  A record of pending operations is an association list with the keys in the order of
  their insertion. The two totals are numbers throughout: they are only ever added to,
  subtracted from and compared.
\<close>

type_synonym PendingRecord = "(string \<times> JSValue) list"

record NetworkStatus =
  pendingQueries :: "PendingRecord object"
  pendingMutations :: "PendingRecord object"
  numPendingQueries :: int
  numPendingMutations :: int
  queryError :: "OperationError object option"
  mutationError :: "OperationError object option"


section \<open>The sub-reducers\<close>

definition isOperationType :: "Operation \<Rightarrow> OperationTypeNode \<Rightarrow> bool" where
  "isOperationType op ty =
     list_ex (\<lambda>d. case d of OperationDefinition t \<Rightarrow> t = ty | _ \<Rightarrow> False) (definitions op)"

text \<open>
  \<^verbatim>\<open>const {[operationName]: value = 0} = state\<close>: the own property of that name,
  else the inherited one, else (the read gives undefined) the default 0.
\<close>

definition valueAt :: "PendingRecord \<Rightarrow> string \<Rightarrow> JSValue" where
  "valueAt state name =
     (case map_of state name of
        Some v \<Rightarrow> v
      | None \<Rightarrow> (case inherited name of Some p \<Rightarrow> Inherited p | None \<Rightarrow> Number 0))"

text \<open>
  \<^verbatim>\<open>pendingOperations(type)\<close>. Both object literals \<^verbatim>\<open>{...state, [operationName]: v}\<close>
  create a new object, with an own property of the computed name.
\<close>

definition pendingOperations ::
  "OperationTypeNode \<Rightarrow> heap \<Rightarrow> PendingRecord object \<Rightarrow> NetworkStatusAction
     \<Rightarrow> PendingRecord object \<times> heap" where
  "pendingOperations ty h state action =
     (if \<not> isOperationType (operation (payload action)) ty then (state, h)
      else
        let name = operationName (operation (payload action));
            value = valueAt (contents state) name
        in case type action of
             REQUEST \<Rightarrow> alloc h (AList.update name (plus1 value) (contents state))
           | ERROR \<Rightarrow> alloc h (AList.update name (maxMinus1 value) (contents state))
           | SUCCESS \<Rightarrow> alloc h (AList.update name (maxMinus1 value) (contents state))
           | CANCEL \<Rightarrow> alloc h (AList.update name (maxMinus1 value) (contents state)))"

text \<open>\<^verbatim>\<open>numPendingOperations(type)\<close>.\<close>

definition numPendingOperations ::
  "OperationTypeNode \<Rightarrow> int \<Rightarrow> NetworkStatusAction \<Rightarrow> int" where
  "numPendingOperations ty state action =
     (if \<not> isOperationType (operation (payload action)) ty then state
      else case type action of
             REQUEST \<Rightarrow> state + 1
           | ERROR \<Rightarrow> max (state - 1) 0
           | SUCCESS \<Rightarrow> max (state - 1) 0
           | CANCEL \<Rightarrow> max (state - 1) 0)"

text \<open>
  \<^verbatim>\<open>latestOperationError(type)\<close>. The test \<^verbatim>\<open>result && result.errors\<close> succeeds when
  the result is there and has an \<^verbatim>\<open>errors\<close> array: every array is truthy, the empty
  one too.
\<close>

definition latestOperationError ::
  "OperationTypeNode \<Rightarrow> heap \<Rightarrow> OperationError object option \<Rightarrow> NetworkStatusAction
     \<Rightarrow> OperationError object option \<times> heap" where
  "latestOperationError ty h state action =
     (if \<not> isOperationType (operation (payload action)) ty then (state, h)
      else case type action of
             REQUEST \<Rightarrow> (None, h)
           | ERROR \<Rightarrow>
               (let (e, h') = alloc h
                      \<lparr>OperationError.networkError = networkError (payload action),
                       OperationError.operation = operation (payload action),
                       response = None, graphQLErrors = None\<rparr>
                in (Some e, h'))
           | SUCCESS \<Rightarrow>
               (case result (payload action) of
                  None \<Rightarrow> (state, h)
                | Some r \<Rightarrow>
                    (case errors r of
                       None \<Rightarrow> (state, h)
                     | Some es \<Rightarrow>
                         (let (e, h') = alloc h
                                \<lparr>OperationError.networkError = None,
                                 OperationError.operation = operation (payload action),
                                 response = Some r, graphQLErrors = Some es\<rparr>
                          in (Some e, h'))))
           | CANCEL \<Rightarrow> (state, h))"


section \<open>The reducer\<close>

text \<open>
  \<^verbatim>\<open>reducer\<close>. The copy \<^verbatim>\<open>{...state}\<close> is a new object; its six fields are then
  assigned one after the other, each from the sub-reducer of its name applied to the
  field's value (the constants \<^verbatim>\<open>pendingQueries = pendingOperations('query')\<close> and so
  on are written out, since the record fields have their names).
  \<^verbatim>\<open>haveValuesChanged\<close> compares the fields of the two objects: the records and the
  errors by identity, the two numbers by value. The source runs over the keys of
  \<^verbatim>\<open>state\<close>; the two records and the two totals are always among them, and an error
  field only changes on an action for which the record of its kind is rebuilt, so the
  comparison of all six fields gives the same answer when an optional error key is
  missing from \<^verbatim>\<open>state\<close>.
\<close>

definition haveValuesChanged :: "NetworkStatus \<Rightarrow> NetworkStatus \<Rightarrow> bool" where
  "haveValuesChanged updatedState state \<longleftrightarrow>
     notSame (pendingQueries updatedState) (pendingQueries state) \<or>
     notSame (pendingMutations updatedState) (pendingMutations state) \<or>
     numPendingQueries updatedState \<noteq> numPendingQueries state \<or>
     numPendingMutations updatedState \<noteq> numPendingMutations state \<or>
     notSameOpt (queryError updatedState) (queryError state) \<or>
     notSameOpt (mutationError updatedState) (mutationError state)"

definition reducer ::
  "heap \<Rightarrow> NetworkStatus object \<Rightarrow> NetworkStatusAction \<Rightarrow> NetworkStatus object \<times> heap" where
  "reducer h state action =
     (if isOperationType (operation (payload action)) Subscription then (state, h)
      else
        let (copy, h0) = alloc h (contents state);
            u0 = contents copy;
            (pq, h1) = pendingOperations Query h0 (pendingQueries u0) action;
            u1 = u0\<lparr>pendingQueries := pq\<rparr>;
            (pm, h2) = pendingOperations Mutation h1 (pendingMutations u1) action;
            u2 = u1\<lparr>pendingMutations := pm\<rparr>;
            u3 = u2\<lparr>numPendingQueries := numPendingOperations Query (numPendingQueries u2) action\<rparr>;
            u4 = u3\<lparr>numPendingMutations :=
                      numPendingOperations Mutation (numPendingMutations u3) action\<rparr>;
            (qe, h3) = latestOperationError Query h2 (queryError u4) action;
            u5 = u4\<lparr>queryError := qe\<rparr>;
            (me, h4) = latestOperationError Mutation h3 (mutationError u5) action;
            updatedState = u5\<lparr>mutationError := me\<rparr>
        in (if haveValuesChanged updatedState (contents state)
            then Object (address copy) updatedState else state, h4))"

text \<open>
  \<^verbatim>\<open>initialState\<close>: the status object and its two empty records are the first three
  objects; \<open>initialHeap\<close> is the first address after them.
\<close>

definition initialState :: "NetworkStatus object" where
  "initialState = Object 0
     \<lparr>pendingQueries = Object 1 [], pendingMutations = Object 2 [],
      numPendingQueries = 0, numPendingMutations = 0,
      queryError = None, mutationError = None\<rparr>"

definition initialHeap :: heap where
  "initialHeap = 3"

text \<open>The reducer applied to a sequence of actions, first action first.\<close>

fun reduceAll ::
  "heap \<Rightarrow> NetworkStatus object \<Rightarrow> NetworkStatusAction list \<Rightarrow> NetworkStatus object \<times> heap" where
  "reduceAll h state [] = (state, h)"
| "reduceAll h state (action # actions) =
     (case reducer h state action of (state', h') \<Rightarrow> reduceAll h' state' actions)"


section \<open>The configured reducer\<close>

text \<open>\<^verbatim>\<open>defaultShouldHandleOperation\<close>: everything but the boolean false passes.\<close>

definition defaultShouldHandleOperation :: "Operation \<Rightarrow> bool" where
  "defaultShouldHandleOperation op \<longleftrightarrow> useApolloNetworkStatus op \<noteq> CtxBoolean False"

record UseApolloNetworkStatusOptions =
  shouldHandleOperation :: "(Operation \<Rightarrow> bool) option"

text \<open>
  \<^verbatim>\<open>configuredReducer\<close> of \<^verbatim>\<open>useApolloNetworkStatus(dispatcher, options)\<close>: missing
  options are the empty options, a missing predicate is the default one.
\<close>

definition configuredReducer ::
  "UseApolloNetworkStatusOptions option \<Rightarrow> heap \<Rightarrow> NetworkStatus object \<Rightarrow> NetworkStatusAction
     \<Rightarrow> NetworkStatus object \<times> heap" where
  "configuredReducer options h state action =
     (let options' = (case options of None \<Rightarrow> \<lparr>shouldHandleOperation = None\<rparr> | Some opts \<Rightarrow> opts);
          shouldHandle = (case shouldHandleOperation options' of
                            None \<Rightarrow> defaultShouldHandleOperation
                          | Some f \<Rightarrow> f)
      in if \<not> shouldHandle (operation (payload action)) then (state, h)
         else reducer h state action)"

section \<open>Properties of a network status\<close>

text \<open>
  Every object of a status lies below the allocation counter: the heap invariant under
  which a newly allocated object differs from every object of the status.
\<close>

definition allocated :: "heap \<Rightarrow> NetworkStatus object \<Rightarrow> bool" where
  "allocated h state \<longleftrightarrow>
     address state < h \<and>
     address (pendingQueries (contents state)) < h \<and>
     address (pendingMutations (contents state)) < h \<and>
     (case queryError (contents state) of None \<Rightarrow> True | Some e \<Rightarrow> address e < h) \<and>
     (case mutationError (contents state) of None \<Rightarrow> True | Some e \<Rightarrow> address e < h)"

text \<open>
  The sum of the values of a record, an integer when every value is a number, and the
  agreement of both totals with it.
\<close>

fun sumValues :: "PendingRecord \<Rightarrow> int option" where
  "sumValues [] = Some 0"
| "sumValues ((name, v) # pending) =
     (case v of Number n \<Rightarrow> map_option (\<lambda>m. n + m) (sumValues pending) | _ \<Rightarrow> None)"

definition consistent :: "NetworkStatus \<Rightarrow> bool" where
  "consistent state \<longleftrightarrow>
     sumValues (contents (pendingQueries state)) = Some (numPendingQueries state) \<and>
     sumValues (contents (pendingMutations state)) = Some (numPendingMutations state)"

text \<open>
  \<^verbatim>\<open>v >= 0\<close> for a value of a record: true of the numbers from 0 on; no count of a
  record, and no count of a status, is negative.
\<close>

fun isCount :: "JSValue \<Rightarrow> bool" where
  "isCount (Number n) = (0 \<le> n)"
| "isCount NaN = False"
| "isCount (Inherited p) = False"
| "isCount (Text p k) = False"

definition countsNonNegative :: "PendingRecord \<Rightarrow> bool" where
  "countsNonNegative pending \<longleftrightarrow> list_all (\<lambda>(name, v). isCount v) pending"

definition nonNegative :: "NetworkStatus \<Rightarrow> bool" where
  "nonNegative state \<longleftrightarrow>
     countsNonNegative (contents (pendingQueries state)) \<and>
     countsNonNegative (contents (pendingMutations state)) \<and>
     0 \<le> numPendingQueries state \<and> 0 \<le> numPendingMutations state"

text \<open>
  An action whose operation name is not the name of a property of \<^verbatim>\<open>Object.prototype\<close>.
\<close>

definition plainName :: "NetworkStatusAction \<Rightarrow> bool" where
  "plainName action \<longleftrightarrow> inherited (operationName (operation (payload action))) = None"

text \<open>
  A stray terminal event of a kind: an ERROR, SUCCESS or CANCEL action of that kind that
  arrives when no operation of its name is pending while the total of the kind is
  positive. The total is lowered, the count of the name stays clamped at 0.
\<close>

definition strayTerminal ::
  "OperationTypeNode \<Rightarrow> PendingRecord \<Rightarrow> int \<Rightarrow> NetworkStatusAction \<Rightarrow> bool" where
  "strayTerminal ty pending num action \<longleftrightarrow>
     isOperationType (operation (payload action)) ty \<and> type action \<noteq> REQUEST \<and>
     (case valueAt pending (operationName (operation (payload action))) of
        Number v \<Rightarrow> v \<le> 0 | _ \<Rightarrow> False) \<and>
     0 < num"

definition stray :: "NetworkStatus \<Rightarrow> NetworkStatusAction \<Rightarrow> bool" where
  "stray state action \<longleftrightarrow>
     \<not> isOperationType (operation (payload action)) Subscription \<and>
     (strayTerminal Query (contents (pendingQueries state)) (numPendingQueries state) action \<or>
      strayTerminal Mutation (contents (pendingMutations state)) (numPendingMutations state) action)"

text \<open>A sequence of actions none of which is stray in the status it is applied to.\<close>

fun noStray :: "heap \<Rightarrow> NetworkStatus object \<Rightarrow> NetworkStatusAction list \<Rightarrow> bool" where
  "noStray h state [] = True"
| "noStray h state (action # actions) =
     (\<not> stray (contents state) action \<and>
      (case reducer h state action of (state', h') \<Rightarrow> noStray h' state' actions))"


section \<open>Example inputs\<close>

text \<open>
  Operations with a single definition, and actions without error and result, from which
  the concrete instances of the theorems below are built.
\<close>

definition queryOperation :: "string \<Rightarrow> Operation" where
  "queryOperation name =
     \<lparr>definitions = [OperationDefinition Query], operationName = name,
      useApolloNetworkStatus = CtxUndefined\<rparr>"

definition event :: "ActionTypes \<Rightarrow> Operation \<Rightarrow> NetworkStatusAction" where
  "event t op = \<lparr>type = t, payload = \<lparr>operation = op, networkError = None, result = None\<rparr>\<rparr>"

definition subscriptionOperation :: "string \<Rightarrow> Operation" where
  "subscriptionOperation name =
     \<lparr>definitions = [OperationDefinition Subscription], operationName = name,
      useApolloNetworkStatus = CtxUndefined\<rparr>"

text \<open>A query that opts out through its context.\<close>

definition optedOutOperation :: "string \<Rightarrow> Operation" where
  "optedOutOperation name =
     \<lparr>definitions = [OperationDefinition Query], operationName = name,
      useApolloNetworkStatus = CtxBoolean False\<rparr>"

definition successEvent :: "Operation \<Rightarrow> ExecutionResult \<Rightarrow> NetworkStatusAction" where
  "successEvent op r =
     \<lparr>type = SUCCESS, payload = \<lparr>operation = op, networkError = None, result = Some r\<rparr>\<rparr>"

definition errorEvent :: "Operation \<Rightarrow> NetworkError \<Rightarrow> NetworkStatusAction" where
  "errorEvent op e =
     \<lparr>type = ERROR, payload = \<lparr>operation = op, networkError = Some e, result = None\<rparr>\<rparr>"

text \<open>A status that holds the error of an earlier query named Search.\<close>

definition staleError :: "OperationError object" where
  "staleError = Object 3
     \<lparr>OperationError.networkError = None, OperationError.operation = queryOperation ''Search'',
      response = Some \<lparr>data = None, errors = Some [''not found'']\<rparr>,
      graphQLErrors = Some [''not found'']\<rparr>"

definition failedState :: "NetworkStatus object" where
  "failedState = Object 0
     \<lparr>pendingQueries = Object 1 [(''Search'', Number 0)], pendingMutations = Object 2 [],
      numPendingQueries = 0, numPendingMutations = 0,
      queryError = Some staleError, mutationError = None\<rparr>"

text \<open>Documents with more than one operation definition.\<close>

definition queryAndMutationOperation :: "string \<Rightarrow> Operation" where
  "queryAndMutationOperation name =
     \<lparr>definitions = [FragmentDefinition, OperationDefinition Query, OperationDefinition Mutation],
      operationName = name, useApolloNetworkStatus = CtxUndefined\<rparr>"

definition queryAndSubscriptionOperation :: "string \<Rightarrow> Operation" where
  "queryAndSubscriptionOperation name =
     \<lparr>definitions = [OperationDefinition Query, OperationDefinition Subscription],
      operationName = name, useApolloNetworkStatus = CtxUndefined\<rparr>"

text \<open>
  The status reached from the initial state by one SUCCESS action for the query GetUser,
  and the allocation counter after it.
\<close>

definition settledState :: "NetworkStatus object" where
  "settledState = Object 3
     \<lparr>pendingQueries = Object 4 [(''GetUser'', Number 0)], pendingMutations = Object 2 [],
      numPendingQueries = 0, numPendingMutations = 0,
      queryError = None, mutationError = None\<rparr>"

definition settledHeap :: heap where
  "settledHeap = 5"

definition cleanSuccess :: NetworkStatusAction where
  "cleanSuccess = successEvent (queryOperation ''GetUser'') \<lparr>data = Some ''user'', errors = None\<rparr>"


section \<open>The sub-reducers and the reducer, case by case\<close>

lemma notSame_refl: "\<not> notSame a a"
  by (simp add: notSame_def)

lemma notSameOpt_refl: "\<not> notSameOpt x x"
  by (cases x) (simp_all add: notSame_def)

lemma haveValuesChanged_refl: "\<not> haveValuesChanged u u"
  by (simp add: haveValuesChanged_def notSame_refl notSameOpt_refl)

lemma pendingOperations_other:
  "\<not> isOperationType (operation (payload action)) ty \<Longrightarrow>
     pendingOperations ty h state action = (state, h)"
  by (simp add: pendingOperations_def)

lemma pendingOperations_match:
  "isOperationType (operation (payload action)) ty \<Longrightarrow>
     pendingOperations ty h state action =
       (Object h (AList.update (operationName (operation (payload action)))
                   (case type action of
                      REQUEST \<Rightarrow> plus1 (valueAt (contents state) (operationName (operation (payload action))))
                    | _ \<Rightarrow> maxMinus1 (valueAt (contents state) (operationName (operation (payload action)))))
                   (contents state)),
        Suc h)"
  by (simp add: pendingOperations_def alloc_def Let_def split: ActionTypes.splits)

lemma numPendingOperations_other:
  "\<not> isOperationType (operation (payload action)) ty \<Longrightarrow>
     numPendingOperations ty n action = n"
  by (simp add: numPendingOperations_def)

lemma numPendingOperations_match:
  "isOperationType (operation (payload action)) ty \<Longrightarrow>
     numPendingOperations ty n action =
       (case type action of REQUEST \<Rightarrow> n + 1 | _ \<Rightarrow> max (n - 1) 0)"
  by (simp add: numPendingOperations_def split: ActionTypes.splits)

lemma latestOperationError_other:
  "\<not> isOperationType (operation (payload action)) ty \<Longrightarrow>
     latestOperationError ty h state action = (state, h)"
  by (simp add: latestOperationError_def)

lemma reducer_unfold:
  assumes "\<not> isOperationType (operation (payload action)) Subscription"
  shows "reducer h state action =
    (let r1 = pendingOperations Query (Suc h) (pendingQueries (contents state)) action;
         r2 = pendingOperations Mutation (snd r1) (pendingMutations (contents state)) action;
         r3 = latestOperationError Query (snd r2) (queryError (contents state)) action;
         r4 = latestOperationError Mutation (snd r3) (mutationError (contents state)) action;
         u = \<lparr>pendingQueries = fst r1, pendingMutations = fst r2,
              numPendingQueries = numPendingOperations Query (numPendingQueries (contents state)) action,
              numPendingMutations = numPendingOperations Mutation (numPendingMutations (contents state)) action,
              queryError = fst r3, mutationError = fst r4\<rparr>
     in (if haveValuesChanged u (contents state) then Object h u else state, snd r4))"
  using assms
  by (cases state; cases "contents state")
     (simp add: reducer_def alloc_def Let_def split: prod.splits)

lemma reducer_other:
  assumes "\<not> isOperationType (operation (payload action)) Query"
    and "\<not> isOperationType (operation (payload action)) Mutation"
  shows "fst (reducer h state action) = state"
  using assms
  by (cases state; cases "contents state")
     (simp add: reducer_def alloc_def Let_def pendingOperations_other numPendingOperations_other
        latestOperationError_other haveValuesChanged_refl)

lemma reducer_subscription:
  "isOperationType (operation (payload action)) Subscription \<Longrightarrow> reducer h state action = (state, h)"
  by (simp add: reducer_def)

lemma pendingOperations_heap: "h \<le> snd (pendingOperations ty h state action)"
  by (cases "isOperationType (operation (payload action)) ty")
     (simp_all add: pendingOperations_other pendingOperations_match)

lemma latestOperationError_heap: "h \<le> snd (latestOperationError ty h state action)"
  by (simp add: latestOperationError_def alloc_def split: ActionTypes.splits option.splits)

lemma latestOperationError_allocated:
  assumes "case state of None \<Rightarrow> True | Some e \<Rightarrow> address e < h"
  shows "case fst (latestOperationError ty h state action) of None \<Rightarrow> True
         | Some e \<Rightarrow> address e < snd (latestOperationError ty h state action)"
  using assms
  by (simp add: latestOperationError_def alloc_def split: ActionTypes.splits option.splits)

lemma reducer_changed:
  assumes "\<not> isOperationType (operation (payload action)) Subscription"
    and "isOperationType (operation (payload action)) Query \<or>
         isOperationType (operation (payload action)) Mutation"
    and "allocated h state"
  shows "reducer h state action =
    (let r1 = pendingOperations Query (Suc h) (pendingQueries (contents state)) action;
         r2 = pendingOperations Mutation (snd r1) (pendingMutations (contents state)) action;
         r3 = latestOperationError Query (snd r2) (queryError (contents state)) action;
         r4 = latestOperationError Mutation (snd r3) (mutationError (contents state)) action
     in (Object h
          \<lparr>pendingQueries = fst r1, pendingMutations = fst r2,
           numPendingQueries = numPendingOperations Query (numPendingQueries (contents state)) action,
           numPendingMutations = numPendingOperations Mutation (numPendingMutations (contents state)) action,
           queryError = fst r3, mutationError = fst r4\<rparr>, snd r4))"
proof -
  let ?op = "operation (payload action)"
  let ?r1 = "pendingOperations Query (Suc h) (pendingQueries (contents state)) action"
  let ?r2 = "pendingOperations Mutation (snd ?r1) (pendingMutations (contents state)) action"
  have "notSame (fst ?r1) (pendingQueries (contents state)) \<or>
        notSame (fst ?r2) (pendingMutations (contents state))"
  proof (cases "isOperationType ?op Query")
    case True
    with assms(3) show ?thesis
      by (simp add: pendingOperations_match notSame_def allocated_def)
  next
    case False
    with assms(2) have m: "isOperationType ?op Mutation" by simp
    from assms(3) have "address (pendingMutations (contents state)) < snd ?r1"
      using pendingOperations_heap [of "Suc h" Query "pendingQueries (contents state)" action]
      by (simp add: allocated_def)
    with m show ?thesis
      by (simp add: pendingOperations_match notSame_def)
  qed
  then have "haveValuesChanged
      \<lparr>pendingQueries = fst ?r1, pendingMutations = fst ?r2,
       numPendingQueries = numPendingOperations Query (numPendingQueries (contents state)) action,
       numPendingMutations = numPendingOperations Mutation (numPendingMutations (contents state)) action,
       queryError = fst (latestOperationError Query (snd ?r2) (queryError (contents state)) action),
       mutationError = fst (latestOperationError Mutation
         (snd (latestOperationError Query (snd ?r2) (queryError (contents state)) action))
         (mutationError (contents state)) action)\<rparr> (contents state)"
    unfolding haveValuesChanged_def by auto
  then show ?thesis
    by (simp add: reducer_unfold [OF assms(1)] Let_def)
qed


section \<open>Sums and signs of the counts\<close>

lemma valueAt_count:
  assumes "countsNonNegative pending" and "inherited k = None"
  shows "\<exists>v. valueAt pending k = Number v \<and> 0 \<le> v"
  using assms
proof (induction pending)
  case Nil
  then show ?case by (simp add: valueAt_def)
next
  case (Cons p pending)
  obtain name x where p: "p = (name, x)" by (cases p)
  from Cons.prems p have x: "isCount x" and rest: "countsNonNegative pending"
    by (simp_all add: countsNonNegative_def)
  show ?case
  proof (cases "name = k")
    case True
    with x p show ?thesis by (cases x) (simp_all add: valueAt_def)
  next
    case False
    with p have "valueAt (p # pending) k = valueAt pending k"
      by (simp add: valueAt_def)
    with Cons.IH [OF rest Cons.prems(2)] show ?thesis by simp
  qed
qed

lemma sumValues_count:
  "countsNonNegative pending \<Longrightarrow> \<exists>s. sumValues pending = Some s \<and> 0 \<le> s"
proof (induction pending)
  case Nil
  then show ?case by simp
next
  case (Cons p pending)
  obtain name x where p: "p = (name, x)" by (cases p)
  from Cons.prems p have x: "isCount x" and rest: "countsNonNegative pending"
    by (simp_all add: countsNonNegative_def)
  from Cons.IH [OF rest] obtain s where "sumValues pending = Some s" "0 \<le> s" by blast
  with x p show ?case by (cases x) simp_all
qed

lemma sumValues_update:
  assumes "sumValues pending = Some s" and "valueAt pending k = Number v"
  shows "sumValues (AList.update k (Number w) pending) = Some (s - v + w)"
  using assms
proof (induction pending arbitrary: s)
  case Nil
  then show ?case by (simp add: valueAt_def split: option.splits)
next
  case (Cons p pending)
  obtain name x where p: "p = (name, x)" by (cases p)
  from Cons.prems(1) p obtain n s' where x: "x = Number n" and s': "sumValues pending = Some s'"
    and s: "s = n + s'"
    by (cases x) auto
  show ?case
  proof (cases "name = k")
    case True
    with Cons.prems(2) p x have "n = v" by (simp add: valueAt_def)
    with True p x s s' show ?thesis by simp
  next
    case False
    with p Cons.prems(2) have "valueAt pending k = Number v"
      by (simp add: valueAt_def)
    from Cons.IH [OF s' this] False p x s show ?thesis by simp
  qed
qed

lemma valueAt_le_sumValues:
  assumes "countsNonNegative pending" and "sumValues pending = Some s"
    and "valueAt pending k = Number v" and "inherited k = None"
  shows "v \<le> s"
  using assms
proof (induction pending arbitrary: s)
  case Nil
  then show ?case by (simp add: valueAt_def)
next
  case (Cons p pending)
  obtain name x where p: "p = (name, x)" by (cases p)
  from Cons.prems(1) p have xc: "isCount x" and rest: "countsNonNegative pending"
    by (simp_all add: countsNonNegative_def)
  from Cons.prems(2) p obtain n s' where x: "x = Number n" and s': "sumValues pending = Some s'"
    and s: "s = n + s'"
    by (cases x) auto
  from xc x have n: "0 \<le> n" by simp
  from sumValues_count [OF rest] s' have pos: "0 \<le> s'" by auto
  show ?case
  proof (cases "name = k")
    case True
    with Cons.prems(3) p x have "n = v" by (simp add: valueAt_def)
    with s pos show ?thesis by simp
  next
    case False
    with p Cons.prems(3) have "valueAt pending k = Number v"
      by (simp add: valueAt_def)
    from Cons.IH [OF rest s' this Cons.prems(4)] s n show ?thesis by simp
  qed
qed

lemma update_count:
  assumes "countsNonNegative pending" and "isCount x"
  shows "countsNonNegative (AList.update k x pending)"
  using assms by (induction pending) (auto simp: countsNonNegative_def)

text \<open>One kind: the record and the total after an action with a plain operation name.\<close>

lemma kind_step_nonneg:
  assumes "countsNonNegative (contents pending)" and "0 \<le> num" and "plainName action"
  shows "countsNonNegative (contents (fst (pendingOperations ty h pending action)))
         \<and> 0 \<le> numPendingOperations ty num action"
proof (cases "isOperationType (operation (payload action)) ty")
  case False
  with assms show ?thesis
    by (simp add: pendingOperations_other numPendingOperations_other)
next
  case True
  let ?name = "operationName (operation (payload action))"
  from assms(1,3) obtain v where v: "valueAt (contents pending) ?name = Number v" "0 \<le> v"
    using valueAt_count [of "contents pending" ?name] by (auto simp: plainName_def)
  then have "isCount (case type action of REQUEST \<Rightarrow> plus1 (valueAt (contents pending) ?name)
      | _ \<Rightarrow> maxMinus1 (valueAt (contents pending) ?name))"
    by (simp split: ActionTypes.splits)
  with assms(1) have "countsNonNegative (AList.update ?name
      (case type action of REQUEST \<Rightarrow> plus1 (valueAt (contents pending) ?name)
       | _ \<Rightarrow> maxMinus1 (valueAt (contents pending) ?name)) (contents pending))"
    by (rule update_count)
  moreover have "0 \<le> numPendingOperations ty num action"
    using assms(2) True by (simp add: numPendingOperations_match split: ActionTypes.splits)
  ultimately show ?thesis using True
    by (simp add: pendingOperations_match)
qed

lemma kind_step_consistent:
  assumes "countsNonNegative (contents pending)"
    and "sumValues (contents pending) = Some num"
    and "\<not> strayTerminal ty (contents pending) num action"
    and "plainName action"
  shows "sumValues (contents (fst (pendingOperations ty h pending action))) =
         Some (numPendingOperations ty num action)"
proof (cases "isOperationType (operation (payload action)) ty")
  case False
  with assms show ?thesis
    by (simp add: pendingOperations_other numPendingOperations_other)
next
  case True
  let ?name = "operationName (operation (payload action))"
  from assms(4) have plain: "inherited ?name = None" by (simp add: plainName_def)
  from assms(1) plain obtain v where v: "valueAt (contents pending) ?name = Number v" "0 \<le> v"
    using valueAt_count [of "contents pending" ?name] by auto
  have le: "v \<le> num"
    using assms(1,2) v(1) plain by (rule valueAt_le_sumValues)
  show ?thesis
  proof (cases "type action = REQUEST")
    case True
    with \<open>isOperationType (operation (payload action)) ty\<close> v
      sumValues_update [OF assms(2) v(1), of "v + 1"]
    show ?thesis
      by (simp add: pendingOperations_match numPendingOperations_match)
  next
    case False
    with True assms(3) v have "0 < v \<or> num \<le> 0"
      by (auto simp: strayTerminal_def)
    with v le False True sumValues_update [OF assms(2) v(1), of "max (v - 1) 0"]
    show ?thesis
      by (auto simp: pendingOperations_match numPendingOperations_match
            split: ActionTypes.splits)
  qed
qed

lemma reducer_cases:
  assumes "P (contents state)"
    and "\<And>h1 h2 h3. \<not> isOperationType (operation (payload action)) Subscription \<Longrightarrow>
       P \<lparr>pendingQueries = fst (pendingOperations Query h1 (pendingQueries (contents state)) action),
          pendingMutations = fst (pendingOperations Mutation h2 (pendingMutations (contents state)) action),
          numPendingQueries = numPendingOperations Query (numPendingQueries (contents state)) action,
          numPendingMutations = numPendingOperations Mutation (numPendingMutations (contents state)) action,
          queryError = fst (latestOperationError Query h3 (queryError (contents state)) action),
          mutationError = fst (latestOperationError Mutation
             (snd (latestOperationError Query h3 (queryError (contents state)) action))
             (mutationError (contents state)) action)\<rparr>"
  shows "P (contents (fst (reducer h state action)))"
proof (cases "isOperationType (operation (payload action)) Subscription")
  case True
  with assms(1) show ?thesis by (simp add: reducer_subscription)
next
  case False
  from assms(2) [OF False] assms(1) show ?thesis
    by (simp add: reducer_unfold [OF False] Let_def)
qed

lemma reducer_nonNegative:
  assumes "nonNegative (contents state)" and "plainName action"
  shows "nonNegative (contents (fst (reducer h state action)))"
proof (rule reducer_cases)
  show "nonNegative (contents state)" by (rule assms)
next
  fix h1 h2 h3
  from assms(1) show "nonNegative
     \<lparr>pendingQueries = fst (pendingOperations Query h1 (pendingQueries (contents state)) action),
      pendingMutations = fst (pendingOperations Mutation h2 (pendingMutations (contents state)) action),
      numPendingQueries = numPendingOperations Query (numPendingQueries (contents state)) action,
      numPendingMutations = numPendingOperations Mutation (numPendingMutations (contents state)) action,
      queryError = fst (latestOperationError Query h3 (queryError (contents state)) action),
      mutationError = fst (latestOperationError Mutation
         (snd (latestOperationError Query h3 (queryError (contents state)) action))
         (mutationError (contents state)) action)\<rparr>"
    using kind_step_nonneg [OF _ _ assms(2), of "pendingQueries (contents state)" "numPendingQueries (contents state)" Query h1]
      kind_step_nonneg [OF _ _ assms(2), of "pendingMutations (contents state)" "numPendingMutations (contents state)" Mutation h2]
    by (simp add: nonNegative_def)
qed

lemma reducer_consistent:
  assumes "nonNegative (contents state)" and "consistent (contents state)"
    and "\<not> stray (contents state) action" and "plainName action"
  shows "consistent (contents (fst (reducer h state action)))"
proof (rule reducer_cases)
  show "consistent (contents state)" by (rule assms(2))
next
  fix h1 h2 h3
  assume "\<not> isOperationType (operation (payload action)) Subscription"
  with assms(3) have
    "\<not> strayTerminal Query (contents (pendingQueries (contents state))) (numPendingQueries (contents state)) action"
    "\<not> strayTerminal Mutation (contents (pendingMutations (contents state))) (numPendingMutations (contents state)) action"
    by (simp_all add: stray_def)
  with assms(1,2) show "consistent
     \<lparr>pendingQueries = fst (pendingOperations Query h1 (pendingQueries (contents state)) action),
      pendingMutations = fst (pendingOperations Mutation h2 (pendingMutations (contents state)) action),
      numPendingQueries = numPendingOperations Query (numPendingQueries (contents state)) action,
      numPendingMutations = numPendingOperations Mutation (numPendingMutations (contents state)) action,
      queryError = fst (latestOperationError Query h3 (queryError (contents state)) action),
      mutationError = fst (latestOperationError Mutation
         (snd (latestOperationError Query h3 (queryError (contents state)) action))
         (mutationError (contents state)) action)\<rparr>"
    using kind_step_consistent [OF _ _ _ assms(4), of "pendingQueries (contents state)" "numPendingQueries (contents state)" Query h1]
      kind_step_consistent [OF _ _ _ assms(4), of "pendingMutations (contents state)" "numPendingMutations (contents state)" Mutation h2]
    by (simp add: nonNegative_def consistent_def)
qed

lemma reduceAll_nonNegative:
  "nonNegative (contents state) \<Longrightarrow> list_all plainName actions \<Longrightarrow>
     nonNegative (contents (fst (reduceAll h state actions)))"
proof (induction actions arbitrary: h state)
  case Nil
  then show ?case by simp
next
  case (Cons action actions)
  from Cons.prems have "nonNegative (contents (fst (reducer h state action)))"
    by (simp add: reducer_nonNegative)
  with Cons.prems show ?case
    using Cons.IH [of "fst (reducer h state action)" "snd (reducer h state action)"]
    by (simp add: case_prod_unfold)
qed

lemma reduceAll_consistent:
  "nonNegative (contents state) \<Longrightarrow> consistent (contents state) \<Longrightarrow> noStray h state actions \<Longrightarrow>
     list_all plainName actions \<Longrightarrow> consistent (contents (fst (reduceAll h state actions)))"
proof (induction actions arbitrary: h state)
  case Nil
  then show ?case by simp
next
  case (Cons action actions)
  let ?s = "fst (reducer h state action)" and ?h = "snd (reducer h state action)"
  from Cons.prems have "nonNegative (contents ?s)" "consistent (contents ?s)" "noStray ?h ?s actions"
    "list_all plainName actions"
    by (simp_all add: reducer_nonNegative reducer_consistent case_prod_unfold)
  then show ?case
    using Cons.IH [of ?s ?h] by (simp add: case_prod_unfold)
qed


section \<open>Allocation and the fields of the result\<close>

lemma pendingOperations_fresh:
  "address state < h \<Longrightarrow>
     address (fst (pendingOperations ty h state action)) < snd (pendingOperations ty h state action)"
  by (cases "isOperationType (operation (payload action)) ty")
     (simp_all add: pendingOperations_other pendingOperations_match)

lemma pendingOperations_contents:
  "contents (fst (pendingOperations ty h state action)) =
     (if isOperationType (operation (payload action)) ty
      then AList.update (operationName (operation (payload action)))
             (case type action of
                REQUEST \<Rightarrow> plus1 (valueAt (contents state) (operationName (operation (payload action))))
              | _ \<Rightarrow> maxMinus1 (valueAt (contents state) (operationName (operation (payload action)))))
             (contents state)
      else contents state)"
  by (simp add: pendingOperations_other pendingOperations_match)

lemma valueAt_update: "valueAt (AList.update k v pending) k = v"
  by (simp add: valueAt_def update_conv')

lemma allocated_initialState: "allocated initialHeap initialState"
  by (simp add: allocated_def initialHeap_def initialState_def)

lemma reducer_heap: "h \<le> snd (reducer h state action)"
proof (cases "isOperationType (operation (payload action)) Subscription")
  case True
  then show ?thesis by (simp add: reducer_subscription)
next
  case False
  let ?r1 = "pendingOperations Query (Suc h) (pendingQueries (contents state)) action"
  let ?r2 = "pendingOperations Mutation (snd ?r1) (pendingMutations (contents state)) action"
  let ?r3 = "latestOperationError Query (snd ?r2) (queryError (contents state)) action"
  let ?r4 = "latestOperationError Mutation (snd ?r3) (mutationError (contents state)) action"
  have "Suc h \<le> snd ?r1" "snd ?r1 \<le> snd ?r2" "snd ?r2 \<le> snd ?r3" "snd ?r3 \<le> snd ?r4"
    by (rule pendingOperations_heap pendingOperations_heap latestOperationError_heap)+
  then have "h \<le> snd ?r4" by simp
  then show ?thesis
    by (simp add: reducer_unfold [OF False] Let_def)
qed

lemma allocated_mono: "allocated h state \<Longrightarrow> h \<le> h' \<Longrightarrow> allocated h' state"
  by (auto simp: allocated_def split: option.splits)

lemma reducer_allocated:
  assumes "allocated h state"
  shows "allocated (snd (reducer h state action)) (fst (reducer h state action))"
proof (cases "isOperationType (operation (payload action)) Subscription \<or>
    \<not> isOperationType (operation (payload action)) Query \<and>
    \<not> isOperationType (operation (payload action)) Mutation")
  case True
  then have "fst (reducer h state action) = state"
    by (auto simp: reducer_subscription reducer_other)
  with assms reducer_heap [of h state action] show ?thesis
    by (simp add: allocated_mono)
next
  case False
  let ?r1 = "pendingOperations Query (Suc h) (pendingQueries (contents state)) action"
  let ?r2 = "pendingOperations Mutation (snd ?r1) (pendingMutations (contents state)) action"
  let ?r3 = "latestOperationError Query (snd ?r2) (queryError (contents state)) action"
  let ?r4 = "latestOperationError Mutation (snd ?r3) (mutationError (contents state)) action"
  have mono: "Suc h \<le> snd ?r1" "snd ?r1 \<le> snd ?r2" "snd ?r2 \<le> snd ?r3" "snd ?r3 \<le> snd ?r4"
    by (rule pendingOperations_heap pendingOperations_heap latestOperationError_heap)+
  from assms have a: "address (pendingQueries (contents state)) < Suc h"
    "address (pendingMutations (contents state)) < snd ?r1"
    "case queryError (contents state) of None \<Rightarrow> True | Some e \<Rightarrow> address e < snd ?r2"
    "case mutationError (contents state) of None \<Rightarrow> True | Some e \<Rightarrow> address e < snd ?r3"
    using mono by (auto simp: allocated_def split: option.splits)
  have "address (fst ?r1) < snd ?r1" using a(1) by (rule pendingOperations_fresh)
  with mono have 1: "address (fst ?r1) < snd ?r4" by simp
  have "address (fst ?r2) < snd ?r2" using a(2) by (rule pendingOperations_fresh)
  with mono have 2: "address (fst ?r2) < snd ?r4" by simp
  have "case fst ?r3 of None \<Rightarrow> True | Some e \<Rightarrow> address e < snd ?r3"
    using a(3) by (rule latestOperationError_allocated)
  with mono have 3: "case fst ?r3 of None \<Rightarrow> True | Some e \<Rightarrow> address e < snd ?r4"
    by (auto split: option.splits)
  have 4: "case fst ?r4 of None \<Rightarrow> True | Some e \<Rightarrow> address e < snd ?r4"
    using a(4) by (rule latestOperationError_allocated)
  from mono have 0: "h < snd ?r4" by simp
  from False have "reducer h state action =
     (Object h
          \<lparr>pendingQueries = fst ?r1, pendingMutations = fst ?r2,
           numPendingQueries = numPendingOperations Query (numPendingQueries (contents state)) action,
           numPendingMutations = numPendingOperations Mutation (numPendingMutations (contents state)) action,
           queryError = fst ?r3, mutationError = fst ?r4\<rparr>, snd ?r4)"
    using reducer_changed [OF _ _ assms, of action] by (simp add: Let_def)
  with 0 1 2 3 4 show ?thesis
    by (simp add: allocated_def)
qed


section \<open>The error fields of the result\<close>

lemma latestOperationError_REQUEST:
  "isOperationType (operation (payload action)) ty \<Longrightarrow> type action = REQUEST \<Longrightarrow>
     latestOperationError ty h state action = (None, h)"
  by (simp add: latestOperationError_def)

lemma latestOperationError_ERROR:
  "isOperationType (operation (payload action)) ty \<Longrightarrow> type action = ERROR \<Longrightarrow>
     latestOperationError ty h state action =
       (Some (Object h \<lparr>OperationError.networkError = networkError (payload action),
                        OperationError.operation = operation (payload action),
                        response = None, graphQLErrors = None\<rparr>), Suc h)"
  by (simp add: latestOperationError_def alloc_def)

lemma notSameOpt_None: "\<not> notSameOpt None x \<Longrightarrow> x = None"
  by (cases x) simp_all

lemma reducer_queryError_cleared:
  assumes "\<not> isOperationType (operation (payload action)) Subscription"
    and "isOperationType (operation (payload action)) Query" and "type action = REQUEST"
  shows "queryError (contents (fst (reducer h state action))) = None"
proof -
  let ?r1 = "pendingOperations Query (Suc h) (pendingQueries (contents state)) action"
  let ?r2 = "pendingOperations Mutation (snd ?r1) (pendingMutations (contents state)) action"
  let ?r3 = "latestOperationError Query (snd ?r2) (queryError (contents state)) action"
  have r3: "fst ?r3 = None"
    using assms(2,3) by (simp add: latestOperationError_REQUEST)
  show ?thesis
  proof (cases "queryError (contents state)")
    case None
    with r3 show ?thesis
      by (simp add: reducer_unfold [OF assms(1)] Let_def)
  next
    case (Some e)
    with r3 have "notSameOpt (fst ?r3) (queryError (contents state))" by simp
    with r3 show ?thesis
      by (simp add: reducer_unfold [OF assms(1)] Let_def haveValuesChanged_def)
  qed
qed

lemma reducer_mutationError_cleared:
  assumes "\<not> isOperationType (operation (payload action)) Subscription"
    and "isOperationType (operation (payload action)) Mutation" and "type action = REQUEST"
  shows "mutationError (contents (fst (reducer h state action))) = None"
proof -
  let ?r1 = "pendingOperations Query (Suc h) (pendingQueries (contents state)) action"
  let ?r2 = "pendingOperations Mutation (snd ?r1) (pendingMutations (contents state)) action"
  let ?r3 = "latestOperationError Query (snd ?r2) (queryError (contents state)) action"
  let ?r4 = "latestOperationError Mutation (snd ?r3) (mutationError (contents state)) action"
  have r4: "fst ?r4 = None"
    using assms(2,3) by (simp add: latestOperationError_REQUEST)
  show ?thesis
  proof (cases "mutationError (contents state)")
    case None
    with r4 show ?thesis
      by (simp add: reducer_unfold [OF assms(1)] Let_def)
  next
    case (Some e)
    with r4 have "notSameOpt (fst ?r4) (mutationError (contents state))" by simp
    with r4 show ?thesis
      by (simp add: reducer_unfold [OF assms(1)] Let_def haveValuesChanged_def)
  qed
qed

lemma reducer_error_fields:
  assumes "\<not> isOperationType (operation (payload action)) Subscription"
    and "allocated h state"
  shows "\<exists>h1 h2. h < h1 \<and> h < h2 \<and>
     queryError (contents (fst (reducer h state action))) =
       fst (latestOperationError Query h1 (queryError (contents state)) action) \<and>
     mutationError (contents (fst (reducer h state action))) =
       fst (latestOperationError Mutation h2 (mutationError (contents state)) action)"
proof (cases "isOperationType (operation (payload action)) Query \<or>
    isOperationType (operation (payload action)) Mutation")
  case True
  let ?r1 = "pendingOperations Query (Suc h) (pendingQueries (contents state)) action"
  let ?r2 = "pendingOperations Mutation (snd ?r1) (pendingMutations (contents state)) action"
  let ?r3 = "latestOperationError Query (snd ?r2) (queryError (contents state)) action"
  have "Suc h \<le> snd ?r1" "snd ?r1 \<le> snd ?r2" "snd ?r2 \<le> snd ?r3"
    by (rule pendingOperations_heap pendingOperations_heap latestOperationError_heap)+
  then have "h < snd ?r2" "h < snd ?r3" by simp_all
  moreover have "queryError (contents (fst (reducer h state action))) = fst ?r3"
    "mutationError (contents (fst (reducer h state action))) =
       fst (latestOperationError Mutation (snd ?r3) (mutationError (contents state)) action)"
    by (simp_all add: reducer_changed [OF assms(1) True assms(2)] Let_def)
  ultimately show ?thesis by blast
next
  case False
  then have "fst (reducer h state action) = state"
    by (simp add: reducer_other)
  with False have "queryError (contents (fst (reducer h state action))) =
       fst (latestOperationError Query (Suc h) (queryError (contents state)) action) \<and>
     mutationError (contents (fst (reducer h state action))) =
       fst (latestOperationError Mutation (Suc h) (mutationError (contents state)) action)"
    by (simp add: latestOperationError_other)
  then show ?thesis by blast
qed


section \<open>The count fields of the result\<close>

lemma isOperationType_iff:
  "isOperationType op ty \<longleftrightarrow> OperationDefinition ty \<in> set (definitions op)"
proof -
  have "(case d of OperationDefinition t \<Rightarrow> t = ty | _ \<Rightarrow> False) \<longleftrightarrow> d = OperationDefinition ty" for d
    by (cases d) auto
  then show ?thesis
    by (auto simp: isOperationType_def list_ex_iff)
qed

lemma reducer_counts:
  assumes "\<not> isOperationType (operation (payload action)) Subscription"
    and "allocated h state"
  shows "contents (pendingQueries (contents (fst (reducer h state action)))) =
           contents (fst (pendingOperations Query h (pendingQueries (contents state)) action)) \<and>
         contents (pendingMutations (contents (fst (reducer h state action)))) =
           contents (fst (pendingOperations Mutation h (pendingMutations (contents state)) action)) \<and>
         numPendingQueries (contents (fst (reducer h state action))) =
           numPendingOperations Query (numPendingQueries (contents state)) action \<and>
         numPendingMutations (contents (fst (reducer h state action))) =
           numPendingOperations Mutation (numPendingMutations (contents state)) action"
proof (cases "isOperationType (operation (payload action)) Query \<or>
    isOperationType (operation (payload action)) Mutation")
  case True
  show ?thesis
    by (simp add: reducer_changed [OF assms(1) True assms(2)] Let_def pendingOperations_contents)
next
  case False
  then have "fst (reducer h state action) = state"
    by (simp add: reducer_other)
  with False show ?thesis
    by (simp add: pendingOperations_other numPendingOperations_other)
qed



section \<open>Totals and sums of counts\<close>

text \<open>
  Claim C1, as the code has it. In every status reached from the initial state by a
  finite sequence of actions none of which is stray (an ERROR, SUCCESS or CANCEL of a
  tracked kind applied while the count of its operation name is 0 and the total of the
  kind is positive), \<^verbatim>\<open>numPendingQueries\<close> is the sum of the values of
  \<^verbatim>\<open>pendingQueries\<close> and \<^verbatim>\<open>numPendingMutations\<close> is the sum of the values of
  \<^verbatim>\<open>pendingMutations\<close>. The statement is about actions whose operation name is not
  the name of a property of \<^verbatim>\<open>Object.prototype\<close>; what the records hold under such a
  name is the matter of claim C4.
\<close>

theorem totals_are_sums:
  assumes "noStray initialHeap initialState actions" and "list_all plainName actions"
  shows "consistent (contents (fst (reduceAll initialHeap initialState actions)))"
proof -
  have "nonNegative (contents initialState)"
    by (simp add: nonNegative_def countsNonNegative_def initialState_def)
  moreover have "consistent (contents initialState)"
    by (simp add: consistent_def initialState_def)
  ultimately show ?thesis using assms by (rule reduceAll_consistent)
qed

theorem totals_are_sums_witness:
  "noStray initialHeap initialState
     [event REQUEST (queryOperation ''A''), event REQUEST (queryOperation ''B''),
      event SUCCESS (queryOperation ''A'')] \<and>
   list_all plainName
     [event REQUEST (queryOperation ''A''), event REQUEST (queryOperation ''B''),
      event SUCCESS (queryOperation ''A'')] \<and>
   consistent (contents (fst (reduceAll initialHeap initialState
     [event REQUEST (queryOperation ''A''), event REQUEST (queryOperation ''B''),
      event SUCCESS (queryOperation ''A'')]))) \<and>
   numPendingQueries (contents (fst (reduceAll initialHeap initialState
     [event REQUEST (queryOperation ''A''), event REQUEST (queryOperation ''B''),
      event SUCCESS (queryOperation ''A'')]))) = 1"
proof -
  have n: "noStray initialHeap initialState
     [event REQUEST (queryOperation ''A''), event REQUEST (queryOperation ''B''),
      event SUCCESS (queryOperation ''A'')]"
    by (simp add: stray_def strayTerminal_def reducer_def pendingOperations_def
        numPendingOperations_def latestOperationError_def haveValuesChanged_def
        isOperationType_def alloc_def notSame_def valueAt_def inherited_def
        prototypeProperties_def event_def queryOperation_def
        initialState_def initialHeap_def Let_def)
  have p: "list_all plainName
     [event REQUEST (queryOperation ''A''), event REQUEST (queryOperation ''B''),
      event SUCCESS (queryOperation ''A'')]"
    by (simp add: plainName_def inherited_def prototypeProperties_def event_def
        queryOperation_def)
  have "numPendingQueries (contents (fst (reduceAll initialHeap initialState
     [event REQUEST (queryOperation ''A''), event REQUEST (queryOperation ''B''),
      event SUCCESS (queryOperation ''A'')]))) = 1"
    by (simp add: reducer_def pendingOperations_def
        numPendingOperations_def latestOperationError_def haveValuesChanged_def
        isOperationType_def alloc_def notSame_def valueAt_def inherited_def
        prototypeProperties_def event_def queryOperation_def
        initialState_def initialHeap_def Let_def)
  with n p totals_are_sums [OF n p] show ?thesis by simp
qed

text \<open>
  A SUCCESS for the query B while only the query A is pending lowers the total to 0 and
  leaves the count of A at 1: the total is no longer the sum of the counts.
\<close>

theorem stray_success_counterexample:
  "contents (pendingQueries (contents (fst (reduceAll initialHeap initialState
     [event REQUEST (queryOperation ''A''), event SUCCESS (queryOperation ''B'')])))) =
     [(''A'', Number 1), (''B'', Number 0)] \<and>
   numPendingQueries (contents (fst (reduceAll initialHeap initialState
     [event REQUEST (queryOperation ''A''), event SUCCESS (queryOperation ''B'')]))) = 0 \<and>
   \<not> consistent (contents (fst (reduceAll initialHeap initialState
     [event REQUEST (queryOperation ''A''), event SUCCESS (queryOperation ''B'')])))"
  by (simp add: consistent_def reducer_def pendingOperations_def
        numPendingOperations_def latestOperationError_def haveValuesChanged_def
        isOperationType_def alloc_def notSame_def valueAt_def inherited_def
        prototypeProperties_def event_def queryOperation_def
        initialState_def initialHeap_def Let_def)


section \<open>When the identity of the state is kept\<close>

text \<open>
  The reducer returns the very state object it was given when the operation of the
  action is a subscription or matches no tracked kind, that is when its document has
  no query and no mutation definition.
\<close>

lemma reducer_keeps_identity:
  "isOperationType (operation (payload action)) Subscription \<or>
   \<not> isOperationType (operation (payload action)) Query \<and>
   \<not> isOperationType (operation (payload action)) Mutation \<Longrightarrow>
     fst (reducer h state action) = state"
  by (auto simp: reducer_subscription reducer_other)

text \<open>
  Claim C2. The reducer is to return the identical state object, not a copy of equal
  value, for an action whose operation matches no tracked kind and for an action that
  changes nothing, such as a SUCCESS without errors when no error was recorded. The
  first half is the lemma above. The second half fails in the code: take the status
  reached from the initial state by a SUCCESS without errors for the query GetUser, in
  which the count of GetUser is 0, both totals are 0 and no error is recorded, and apply
  the same action again. No count and no error changes its value, yet
  \<^verbatim>\<open>pendingOperationsByType\<close> builds a new record with the count 0 of GetUser, the
  comparison by identity sees a changed field, and the state returned is a new object.
\<close>

theorem clean_success_new_object:
  "reducer initialHeap initialState cleanSuccess = (settledState, settledHeap) \<and>
   type cleanSuccess = SUCCESS \<and>
   map_option errors (result (payload cleanSuccess)) = Some None \<and>
   queryError (contents settledState) = None \<and>
   fst (reducer settledHeap settledState cleanSuccess) \<noteq> settledState \<and>
   notSame (fst (reducer settledHeap settledState cleanSuccess)) settledState \<and>
   notSame (pendingQueries (contents (fst (reducer settledHeap settledState cleanSuccess))))
     (pendingQueries (contents settledState)) \<and>
   contents (pendingQueries (contents (fst (reducer settledHeap settledState cleanSuccess)))) =
     contents (pendingQueries (contents settledState)) \<and>
   numPendingQueries (contents (fst (reducer settledHeap settledState cleanSuccess))) =
     numPendingQueries (contents settledState) \<and>
   queryError (contents (fst (reducer settledHeap settledState cleanSuccess))) = None"
  by (simp add: reducer_def pendingOperations_def numPendingOperations_def
        latestOperationError_def haveValuesChanged_def isOperationType_def alloc_def notSame_def
        valueAt_def inherited_def prototypeProperties_def cleanSuccess_def successEvent_def queryOperation_def settledState_def
        settledHeap_def initialState_def initialHeap_def Let_def)


section \<open>The latest error of a kind\<close>




section \<open>Counts are never negative\<close>

text \<open>
  After any finite sequence of actions with plain operation names applied to the
  initial state, among them ERROR, SUCCESS and CANCEL actions that no REQUEST went
  before, every count of a name in \<^verbatim>\<open>pendingQueries\<close> and \<^verbatim>\<open>pendingMutations\<close> is a
  number from 0 on, and so are both totals.
\<close>

lemma counts_never_negative_plain:
  assumes "list_all plainName actions"
  shows "nonNegative (contents (fst (reduceAll initialHeap initialState actions)))"
proof -
  have "nonNegative (contents initialState)"
    by (simp add: nonNegative_def countsNonNegative_def initialState_def)
  then show ?thesis using assms by (rule reduceAll_nonNegative)
qed

text \<open>
  Claim C4. Every count of a name and both totals are to be at least 0 after every
  finite sequence of actions. The code fails it for an operation whose name is the name
  of a property of \<^verbatim>\<open>Object.prototype\<close>, such as the query named constructor: the
  read \<^verbatim>\<open>const {[operationName]: value = 0} = state\<close> finds the inherited function
  and not the default 0, so that a REQUEST stores the text of the function followed by
  \<^verbatim>\<open>1\<close> as the count of the name, and a SUCCESS after it stores \<^verbatim>\<open>NaN\<close>, which is
  not at least 0. The totals are 1 and 0 meanwhile.
\<close>

theorem inherited_name_count:
  "contents (pendingQueries (contents (fst (reduceAll initialHeap initialState
      [event REQUEST (queryOperation ''constructor'')])))) = [(''constructor'', Text Constructor 1)] \<and>
   render Constructor 1 = ''function Object() { [native code] }1'' \<and>
   numPendingQueries (contents (fst (reduceAll initialHeap initialState
      [event REQUEST (queryOperation ''constructor'')]))) = 1 \<and>
   contents (pendingQueries (contents (fst (reduceAll initialHeap initialState
      [event REQUEST (queryOperation ''constructor''),
       event SUCCESS (queryOperation ''constructor'')])))) = [(''constructor'', NaN)] \<and>
   numPendingQueries (contents (fst (reduceAll initialHeap initialState
      [event REQUEST (queryOperation ''constructor''),
       event SUCCESS (queryOperation ''constructor'')]))) = 0 \<and>
   \<not> isCount NaN \<and>
   \<not> nonNegative (contents (fst (reduceAll initialHeap initialState
      [event REQUEST (queryOperation ''constructor''),
       event SUCCESS (queryOperation ''constructor'')])))"
  by (simp add: nonNegative_def countsNonNegative_def render_def reducer_def
        pendingOperations_def numPendingOperations_def latestOperationError_def
        haveValuesChanged_def isOperationType_def alloc_def notSame_def valueAt_def
        inherited_def prototypeProperties_def event_def queryOperation_def
        initialState_def initialHeap_def Let_def)


section \<open>Subscriptions are excluded\<close>

text \<open>
  Claim C5. The reducer applied to any state and any action whose operation is a
  subscription returns the very state object it was given, and allocates nothing:
  no count and no error changes.
\<close>

theorem reducer_subscription_identity:
  "isOperationType (operation (payload action)) Subscription \<Longrightarrow>
     reducer h state action = (state, h)"
  by (simp add: reducer_def)

theorem reducer_subscription_identity_witness:
  "isOperationType (operation (payload (event REQUEST (subscriptionOperation ''OnMessage'')))) Subscription \<and>
   reducer initialHeap initialState (event REQUEST (subscriptionOperation ''OnMessage'')) =
     (initialState, initialHeap)"
proof -
  have s: "isOperationType (operation (payload (event REQUEST (subscriptionOperation ''OnMessage'')))) Subscription"
    by (simp add: isOperationType_def event_def subscriptionOperation_def)
  from s reducer_subscription_identity [OF s] show ?thesis by simp
qed


section \<open>Requests clear the error of their kind\<close>

text \<open>
  Claim C6. A REQUEST action of a kind clears the error of that kind, whatever the name
  of its operation: the tracker of the kind returns the absent error state for every
  prior state, and in the status returned by the reducer \<^verbatim>\<open>queryError\<close> is absent
  after a REQUEST for a query, \<^verbatim>\<open>mutationError\<close> after a REQUEST for a mutation.
  An operation of the kind is one that the reducer handles: its document has a
  definition of the kind and none of a subscription.
\<close>

theorem request_clears_error:
  assumes "type action = REQUEST"
  shows "(isOperationType (operation (payload action)) ty \<longrightarrow>
            latestOperationError ty h' err action = (None, h')) \<and>
         (isOperationType (operation (payload action)) Query \<and>
          \<not> isOperationType (operation (payload action)) Subscription \<longrightarrow>
            queryError (contents (fst (reducer h state action))) = None) \<and>
         (isOperationType (operation (payload action)) Mutation \<and>
          \<not> isOperationType (operation (payload action)) Subscription \<longrightarrow>
            mutationError (contents (fst (reducer h state action))) = None)"
  using assms
  by (simp add: latestOperationError_REQUEST reducer_queryError_cleared
        reducer_mutationError_cleared)

theorem request_clears_error_witness:
  "queryError (contents failedState) = Some staleError \<and>
   operationName (operation (payload (event REQUEST (queryOperation ''GetUser'')))) \<noteq>
     operationName (OperationError.operation (contents staleError)) \<and>
   latestOperationError Query 4 (Some staleError) (event REQUEST (queryOperation ''GetUser'')) = (None, 4) \<and>
   queryError (contents (fst (reducer 4 failedState (event REQUEST (queryOperation ''GetUser''))))) = None"
proof -
  let ?a = "event REQUEST (queryOperation ''GetUser'')"
  have t: "type ?a = REQUEST" by (simp add: event_def)
  have q: "isOperationType (operation (payload ?a)) Query"
    "\<not> isOperationType (operation (payload ?a)) Subscription"
    by (simp_all add: isOperationType_def event_def queryOperation_def)
  have "queryError (contents failedState) = Some staleError"
    by (simp add: failedState_def)
  moreover have "operationName (operation (payload ?a)) \<noteq>
      operationName (OperationError.operation (contents staleError))"
    by (simp add: event_def queryOperation_def staleError_def)
  ultimately show ?thesis
    using request_clears_error [OF t, of Query 4 "Some staleError" 4 failedState] q by simp
qed


section \<open>Errors overwrite the error of their kind\<close>

text \<open>
  Claim C7. An ERROR action of a kind overwrites the error state of that kind whatever
  it held: the tracker of the kind returns a new object that holds the
  \<^verbatim>\<open>networkError\<close> and the \<^verbatim>\<open>operation\<close> of the action and neither \<^verbatim>\<open>graphQLErrors\<close>
  nor \<^verbatim>\<open>response\<close>, and this object is the \<^verbatim>\<open>queryError\<close> (for a query) or the
  \<^verbatim>\<open>mutationError\<close> (for a mutation) of the status returned by the reducer, a
  different object from the error recorded before.
\<close>

theorem error_overwrites:
  assumes "type action = ERROR"
  shows "(isOperationType (operation (payload action)) ty \<longrightarrow>
            latestOperationError ty h' err action =
              (Some (Object h' \<lparr>OperationError.networkError = networkError (payload action),
                                OperationError.operation = operation (payload action),
                                response = None, graphQLErrors = None\<rparr>), Suc h')) \<and>
         (isOperationType (operation (payload action)) Query \<and>
          \<not> isOperationType (operation (payload action)) Subscription \<and> allocated h state \<longrightarrow>
            map_option contents (queryError (contents (fst (reducer h state action)))) =
              Some \<lparr>OperationError.networkError = networkError (payload action),
                    OperationError.operation = operation (payload action),
                    response = None, graphQLErrors = None\<rparr> \<and>
            notSameOpt (queryError (contents (fst (reducer h state action))))
              (queryError (contents state))) \<and>
         (isOperationType (operation (payload action)) Mutation \<and>
          \<not> isOperationType (operation (payload action)) Subscription \<and> allocated h state \<longrightarrow>
            map_option contents (mutationError (contents (fst (reducer h state action)))) =
              Some \<lparr>OperationError.networkError = networkError (payload action),
                    OperationError.operation = operation (payload action),
                    response = None, graphQLErrors = None\<rparr> \<and>
            notSameOpt (mutationError (contents (fst (reducer h state action))))
              (mutationError (contents state)))"
proof (intro conjI impI)
  assume "isOperationType (operation (payload action)) ty"
  with assms show "latestOperationError ty h' err action =
      (Some (Object h' \<lparr>OperationError.networkError = networkError (payload action),
                        OperationError.operation = operation (payload action),
                        response = None, graphQLErrors = None\<rparr>), Suc h')"
    by (simp add: latestOperationError_ERROR)
next
  assume a: "isOperationType (operation (payload action)) Query \<and>
     \<not> isOperationType (operation (payload action)) Subscription \<and> allocated h state"
  then obtain h1 where h1: "h < h1"
    "queryError (contents (fst (reducer h state action))) =
       fst (latestOperationError Query h1 (queryError (contents state)) action)"
    using reducer_error_fields [of action h state] by blast
  with a assms have q: "queryError (contents (fst (reducer h state action))) =
      Some (Object h1 \<lparr>OperationError.networkError = networkError (payload action),
                        OperationError.operation = operation (payload action),
                        response = None, graphQLErrors = None\<rparr>)"
    by (simp add: latestOperationError_ERROR)
  then show "map_option contents (queryError (contents (fst (reducer h state action)))) =
       Some \<lparr>OperationError.networkError = networkError (payload action),
             OperationError.operation = operation (payload action),
             response = None, graphQLErrors = None\<rparr>"
    by simp
  from a h1(1) show "notSameOpt (queryError (contents (fst (reducer h state action))))
       (queryError (contents state))"
    unfolding q by (cases "queryError (contents state)") (auto simp: allocated_def notSame_def)
next
  assume a: "isOperationType (operation (payload action)) Mutation \<and>
     \<not> isOperationType (operation (payload action)) Subscription \<and> allocated h state"
  then obtain h2 where h2: "h < h2"
    "mutationError (contents (fst (reducer h state action))) =
       fst (latestOperationError Mutation h2 (mutationError (contents state)) action)"
    using reducer_error_fields [of action h state] by blast
  with a assms have q: "mutationError (contents (fst (reducer h state action))) =
      Some (Object h2 \<lparr>OperationError.networkError = networkError (payload action),
                        OperationError.operation = operation (payload action),
                        response = None, graphQLErrors = None\<rparr>)"
    by (simp add: latestOperationError_ERROR)
  then show "map_option contents (mutationError (contents (fst (reducer h state action)))) =
       Some \<lparr>OperationError.networkError = networkError (payload action),
             OperationError.operation = operation (payload action),
             response = None, graphQLErrors = None\<rparr>"
    by simp
  from a h2(1) show "notSameOpt (mutationError (contents (fst (reducer h state action))))
       (mutationError (contents state))"
    unfolding q by (cases "mutationError (contents state)") (auto simp: allocated_def notSame_def)
qed

theorem error_overwrites_witness:
  "queryError (contents failedState) = Some staleError \<and>
   graphQLErrors (contents staleError) = Some [''not found''] \<and>
   allocated 4 failedState \<and>
   map_option contents
     (queryError (contents (fst (reducer 4 failedState (errorEvent (queryOperation ''Search'') ''timeout'')))))
     = Some \<lparr>OperationError.networkError = Some ''timeout'',
             OperationError.operation = queryOperation ''Search'',
             response = None, graphQLErrors = None\<rparr>"
proof -
  let ?a = "errorEvent (queryOperation ''Search'') ''timeout''"
  have t: "type ?a = ERROR" by (simp add: errorEvent_def)
  have q: "isOperationType (operation (payload ?a)) Query"
    "\<not> isOperationType (operation (payload ?a)) Subscription"
    by (simp_all add: isOperationType_def errorEvent_def queryOperation_def)
  have s: "queryError (contents failedState) = Some staleError"
    "graphQLErrors (contents staleError) = Some [''not found'']"
    "allocated 4 failedState"
    by (simp_all add: failedState_def staleError_def allocated_def)
  have p: "networkError (payload ?a) = Some ''timeout''"
    "operation (payload ?a) = queryOperation ''Search''"
    by (simp_all add: errorEvent_def)
  from error_overwrites [OF t, of Query 4 None 4 failedState] q s p show ?thesis by simp
qed


section \<open>Two requests and one success\<close>

text \<open>
  Claim C8. From the initial state, two REQUEST actions for the query named GetUser
  followed by one SUCCESS action for it leave \<^verbatim>\<open>pendingQueries.GetUser\<close> at 1, and
  \<^verbatim>\<open>numPendingQueries\<close> at 1: a terminal action takes one pending request away.
  The three actions are any whose operation is a query (and no subscription) named
  GetUser, whatever their payload.
\<close>

theorem two_requests_one_success:
  assumes "type r1 = REQUEST" and "type r2 = REQUEST" and "type s = SUCCESS"
    and "\<forall>a \<in> {r1, r2, s}.
           isOperationType (operation (payload a)) Query \<and>
           \<not> isOperationType (operation (payload a)) Subscription \<and>
           operationName (operation (payload a)) = ''GetUser''"
  shows "map_of (contents (pendingQueries (contents (fst (reduceAll initialHeap initialState [r1, r2, s])))))
           ''GetUser'' = Some (Number 1) \<and>
         numPendingQueries (contents (fst (reduceAll initialHeap initialState [r1, r2, s]))) = 1"
proof -
  let ?s1 = "fst (reducer initialHeap initialState r1)"
  let ?h1 = "snd (reducer initialHeap initialState r1)"
  let ?s2 = "fst (reducer ?h1 ?s1 r2)"
  let ?h2 = "snd (reducer ?h1 ?s1 r2)"
  let ?s3 = "fst (reducer ?h2 ?s2 s)"
  from assms(4) have k1: "isOperationType (operation (payload r1)) Query"
    "\<not> isOperationType (operation (payload r1)) Subscription"
    "operationName (operation (payload r1)) = ''GetUser''"
    and k2: "isOperationType (operation (payload r2)) Query"
    "\<not> isOperationType (operation (payload r2)) Subscription"
    "operationName (operation (payload r2)) = ''GetUser''"
    and k3: "isOperationType (operation (payload s)) Query"
    "\<not> isOperationType (operation (payload s)) Subscription"
    "operationName (operation (payload s)) = ''GetUser''"
    by simp_all
  have a0: "allocated initialHeap initialState" by (rule allocated_initialState)
  have a1: "allocated ?h1 ?s1" using a0 by (rule reducer_allocated)
  have a2: "allocated ?h2 ?s2" using a1 by (rule reducer_allocated)
  have 1: "contents (pendingQueries (contents ?s1)) = [(''GetUser'', Number 1)]"
    "numPendingQueries (contents ?s1) = 1"
    using reducer_counts [OF k1(2) a0] k1 assms(1)
    by (simp_all add: pendingOperations_contents numPendingOperations_match initialState_def
          valueAt_def inherited_def prototypeProperties_def)
  have 2: "contents (pendingQueries (contents ?s2)) = [(''GetUser'', Number 2)]"
    "numPendingQueries (contents ?s2) = 2"
    using reducer_counts [OF k2(2) a1] k2 assms(2)
    by (simp_all add: pendingOperations_contents numPendingOperations_match 1 valueAt_def)
  have 3: "contents (pendingQueries (contents ?s3)) = [(''GetUser'', Number 1)]"
    "numPendingQueries (contents ?s3) = 1"
    using reducer_counts [OF k3(2) a2] k3 assms(3)
    by (simp_all add: pendingOperations_contents numPendingOperations_match 2 valueAt_def)
  have "fst (reduceAll initialHeap initialState [r1, r2, s]) = ?s3"
    by (simp add: case_prod_unfold)
  with 3 show ?thesis by simp
qed

theorem two_requests_one_success_witness:
  "map_of (contents (pendingQueries (contents (fst (reduceAll initialHeap initialState
      [event REQUEST (queryOperation ''GetUser''), event REQUEST (queryOperation ''GetUser''),
       successEvent (queryOperation ''GetUser'') \<lparr>data = Some ''user'', errors = None\<rparr>])))))
     ''GetUser'' = Some (Number 1)"
proof -
  let ?r = "event REQUEST (queryOperation ''GetUser'')"
  let ?s = "successEvent (queryOperation ''GetUser'') \<lparr>data = Some ''user'', errors = None\<rparr>"
  have t: "type ?r = REQUEST" "type ?s = SUCCESS"
    by (simp_all add: event_def successEvent_def)
  have k: "\<forall>a \<in> {?r, ?r, ?s}.
           isOperationType (operation (payload a)) Query \<and>
           \<not> isOperationType (operation (payload a)) Subscription \<and>
           operationName (operation (payload a)) = ''GetUser''"
    by (simp add: isOperationType_def event_def successEvent_def queryOperation_def)
  from two_requests_one_success [OF t(1) t(1) t(2) k] show ?thesis by simp
qed


section \<open>The opt-out gate\<close>

text \<open>
  Claim C9. When the configured predicate \<^verbatim>\<open>shouldHandleOperation\<close> rejects the
  operation of an action, the configured reducer returns the state object it was given;
  the allocation counter stays where it was, so neither the copy made by the reducer nor
  any object of a sub-reducer was created. Without a configured predicate the default
  one rejects the operations whose context entry is the boolean false.
\<close>

theorem configuredReducer_rejected:
  "(shouldHandleOperation options = Some f \<and> \<not> f (operation (payload action)) \<longrightarrow>
      configuredReducer (Some options) h state action = (state, h)) \<and>
   (useApolloNetworkStatus (operation (payload action)) = CtxBoolean False \<longrightarrow>
      configuredReducer None h state action = (state, h) \<and>
      configuredReducer (Some \<lparr>shouldHandleOperation = None\<rparr>) h state action = (state, h))"
  by (simp add: configuredReducer_def defaultShouldHandleOperation_def)

theorem configuredReducer_rejected_witness:
  "shouldHandleOperation \<lparr>shouldHandleOperation = Some (\<lambda>op. operationName op \<noteq> ''Poll'')\<rparr>
     = Some (\<lambda>op. operationName op \<noteq> ''Poll'') \<and>
   \<not> (\<lambda>op. operationName op \<noteq> ''Poll'') (operation (payload (event REQUEST (queryOperation ''Poll'')))) \<and>
   configuredReducer (Some \<lparr>shouldHandleOperation = Some (\<lambda>op. operationName op \<noteq> ''Poll'')\<rparr>)
     initialHeap initialState (event REQUEST (queryOperation ''Poll'')) = (initialState, initialHeap) \<and>
   useApolloNetworkStatus (operation (payload (event REQUEST (optedOutOperation ''Poll'')))) = CtxBoolean False \<and>
   configuredReducer None initialHeap initialState (event REQUEST (optedOutOperation ''Poll''))
     = (initialState, initialHeap)"
  using configuredReducer_rejected [of "\<lparr>shouldHandleOperation = Some (\<lambda>op. operationName op \<noteq> ''Poll'')\<rparr>"
      "\<lambda>op. operationName op \<noteq> ''Poll''" "event REQUEST (queryOperation ''Poll'')" initialHeap initialState]
    configuredReducer_rejected [of "\<lparr>shouldHandleOperation = None\<rparr>"
      "\<lambda>op. True" "event REQUEST (optedOutOperation ''Poll'')" initialHeap initialState]
  by (simp add: event_def queryOperation_def optedOutOperation_def)


section \<open>The kind of an operation\<close>

text \<open>
  Claim C10. The kind of an operation is found by scanning all definitions of its
  document: the operation is of a type exactly when some definition of the document is
  an operation definition of that type. An action whose document has a query definition
  and a mutation definition (and no subscription definition) therefore moves the query
  counters and the mutation counters at once: both totals and, in both records, the
  count of the operation name go up by one on REQUEST and down by one, not below 0, on
  the other actions. For the records this is said of a name under which the record
  reads a number. An action whose document has a subscription definition is left out
  altogether, whatever else the document defines: the reducer returns the state object
  it was given.
\<close>

theorem operation_kind_by_scanning:
  "(isOperationType op ty \<longleftrightarrow> OperationDefinition ty \<in> set (definitions op)) \<and>
   (OperationDefinition Query \<in> set (definitions (operation (payload action))) \<and>
    OperationDefinition Mutation \<in> set (definitions (operation (payload action))) \<and>
    OperationDefinition Subscription \<notin> set (definitions (operation (payload action))) \<and>
    allocated h state \<longrightarrow>
      numPendingQueries (contents (fst (reducer h state action))) =
        (if type action = REQUEST then numPendingQueries (contents state) + 1
         else max (numPendingQueries (contents state) - 1) 0) \<and>
      numPendingMutations (contents (fst (reducer h state action))) =
        (if type action = REQUEST then numPendingMutations (contents state) + 1
         else max (numPendingMutations (contents state) - 1) 0) \<and>
      (\<forall>q. valueAt (contents (pendingQueries (contents state)))
              (operationName (operation (payload action))) = Number q \<longrightarrow>
        valueAt (contents (pendingQueries (contents (fst (reducer h state action)))))
          (operationName (operation (payload action))) =
        Number (if type action = REQUEST then q + 1 else max (q - 1) 0)) \<and>
      (\<forall>m. valueAt (contents (pendingMutations (contents state)))
              (operationName (operation (payload action))) = Number m \<longrightarrow>
        valueAt (contents (pendingMutations (contents (fst (reducer h state action)))))
          (operationName (operation (payload action))) =
        Number (if type action = REQUEST then m + 1 else max (m - 1) 0))) \<and>
   (OperationDefinition Subscription \<in> set (definitions (operation (payload action))) \<longrightarrow>
      reducer h state action = (state, h))"
proof (intro conjI impI)
  show "isOperationType op ty \<longleftrightarrow> OperationDefinition ty \<in> set (definitions op)"
    by (rule isOperationType_iff)
next
  assume "OperationDefinition Subscription \<in> set (definitions (operation (payload action)))"
  then show "reducer h state action = (state, h)"
    by (simp add: reducer_subscription isOperationType_iff)
next
  assume a: "OperationDefinition Query \<in> set (definitions (operation (payload action))) \<and>
    OperationDefinition Mutation \<in> set (definitions (operation (payload action))) \<and>
    OperationDefinition Subscription \<notin> set (definitions (operation (payload action))) \<and>
    allocated h state"
  then have k: "isOperationType (operation (payload action)) Query"
    "isOperationType (operation (payload action)) Mutation"
    "\<not> isOperationType (operation (payload action)) Subscription"
    by (simp_all add: isOperationType_iff)
  from a have al: "allocated h state" by simp
  note c = reducer_counts [OF k(3) al]
  from k show "numPendingQueries (contents (fst (reducer h state action))) =
        (if type action = REQUEST then numPendingQueries (contents state) + 1
         else max (numPendingQueries (contents state) - 1) 0)"
    by (simp add: c numPendingOperations_match split: ActionTypes.splits)
  from k show "numPendingMutations (contents (fst (reducer h state action))) =
        (if type action = REQUEST then numPendingMutations (contents state) + 1
         else max (numPendingMutations (contents state) - 1) 0)"
    by (simp add: c numPendingOperations_match split: ActionTypes.splits)
  from k show "\<forall>q. valueAt (contents (pendingQueries (contents state)))
              (operationName (operation (payload action))) = Number q \<longrightarrow>
        valueAt (contents (pendingQueries (contents (fst (reducer h state action)))))
          (operationName (operation (payload action))) =
        Number (if type action = REQUEST then q + 1 else max (q - 1) 0)"
    by (simp add: c pendingOperations_contents valueAt_update split: ActionTypes.splits)
  from k show "\<forall>m. valueAt (contents (pendingMutations (contents state)))
              (operationName (operation (payload action))) = Number m \<longrightarrow>
        valueAt (contents (pendingMutations (contents (fst (reducer h state action)))))
          (operationName (operation (payload action))) =
        Number (if type action = REQUEST then m + 1 else max (m - 1) 0)"
    by (simp add: c pendingOperations_contents valueAt_update split: ActionTypes.splits)
qed

theorem operation_kind_by_scanning_witness:
  "isOperationType (queryAndMutationOperation ''Sync'') Mutation \<and>
   allocated initialHeap initialState \<and>
   numPendingQueries (contents (fst (reducer initialHeap initialState
      (event REQUEST (queryAndMutationOperation ''Sync''))))) = 1 \<and>
   numPendingMutations (contents (fst (reducer initialHeap initialState
      (event REQUEST (queryAndMutationOperation ''Sync''))))) = 1 \<and>
   valueAt (contents (pendingQueries (contents (fst (reducer initialHeap initialState
      (event REQUEST (queryAndMutationOperation ''Sync''))))))) ''Sync'' = Number 1 \<and>
   valueAt (contents (pendingMutations (contents (fst (reducer initialHeap initialState
      (event REQUEST (queryAndMutationOperation ''Sync''))))))) ''Sync'' = Number 1 \<and>
   reducer initialHeap initialState (event REQUEST (queryAndSubscriptionOperation ''Feed'')) =
     (initialState, initialHeap)"
proof -
  let ?a = "event REQUEST (queryAndMutationOperation ''Sync'')"
  let ?b = "event REQUEST (queryAndSubscriptionOperation ''Feed'')"
  have d: "definitions (operation (payload ?a)) =
      [FragmentDefinition, OperationDefinition Query, OperationDefinition Mutation]"
    "definitions (operation (payload ?b)) = [OperationDefinition Query, OperationDefinition Subscription]"
    "definitions (queryAndMutationOperation ''Sync'') =
      [FragmentDefinition, OperationDefinition Query, OperationDefinition Mutation]"
    "type ?a = REQUEST" "operationName (operation (payload ?a)) = ''Sync''"
    by (simp_all add: event_def queryAndMutationOperation_def queryAndSubscriptionOperation_def)
  have i: "numPendingQueries (contents initialState) = 0"
    "numPendingMutations (contents initialState) = 0"
    "valueAt (contents (pendingQueries (contents initialState))) ''Sync'' = Number 0"
    "valueAt (contents (pendingMutations (contents initialState))) ''Sync'' = Number 0"
    by (simp_all add: initialState_def valueAt_def inherited_def prototypeProperties_def)
  have al: "allocated initialHeap initialState" by (rule allocated_initialState)
  from operation_kind_by_scanning [of "queryAndMutationOperation ''Sync''" Mutation ?a initialHeap initialState]
    operation_kind_by_scanning [of "queryAndMutationOperation ''Sync''" Mutation ?b initialHeap initialState]
    al show ?thesis
    by (simp add: d i)
qed

end
